theory Spec2Isabelle
  imports Complex_Main "HOL-Library.Sublist"
begin

section \<open>Python strings\<close>

text \<open>
  A Python \<open>str\<close> is a sequence of Unicode code points and \<open>len\<close> counts code points.
  The bullet glyph and the ellipsis used by \<open>trim_excerpt\<close> are single code points
  outside ASCII, so a character is modelled by its code point and a string by the list
  of its code points. \<open>py_str\<close> reads an ASCII literal.
\<close>

type_synonym pychar = nat
type_synonym pystr = "nat list"

definition py_str :: "string \<Rightarrow> pystr" where
  "py_str s = map of_char s"

definition SPACE :: pychar where "SPACE = 32"
definition NEWLINE :: pychar where "NEWLINE = 10"
definition PERIOD :: pychar where "PERIOD = 46"
definition BULLET :: pychar where "BULLET = 8226"
definition ELLIPSIS :: pychar where "ELLIPSIS = 8230"

text \<open>\<open>str.isspace\<close> on one character: the code points Python treats as whitespace
  in \<open>split()\<close>, \<open>strip()\<close> and \<open>rstrip()\<close>.\<close>

definition isspace :: "pychar \<Rightarrow> bool" where
  "isspace c =
     ((9 \<le> c \<and> c \<le> 13) \<or> (28 \<le> c \<and> c \<le> 32) \<or> c = 133 \<or> c = 160 \<or> c = 5760 \<or>
      (8192 \<le> c \<and> c \<le> 8202) \<or> c = 8232 \<or> c = 8233 \<or> c = 8239 \<or> c = 8287 \<or>
      c = 12288)"

definition lstrip :: "pystr \<Rightarrow> pystr" where
  "lstrip s = dropWhile isspace s"

definition rstrip :: "pystr \<Rightarrow> pystr" where
  "rstrip s = rev (dropWhile isspace (rev s))"

definition strip :: "pystr \<Rightarrow> pystr" where
  "strip s = rstrip (lstrip s)"

text \<open>\<open>s[start:end]\<close> for \<open>0 \<le> start \<le> end\<close>, and \<open>s[:n]\<close> for any integer \<open>n\<close>
  (a negative \<open>n\<close> counts from the end of the string).\<close>

definition slice :: "nat \<Rightarrow> nat \<Rightarrow> 'a list \<Rightarrow> 'a list" where
  "slice start end s = take (end - start) (drop start s)"

definition slice_to :: "int \<Rightarrow> 'a list \<Rightarrow> 'a list" where
  "slice_to n s = (if 0 \<le> n then take (nat n) s else take (length s - nat (- n)) s)"

definition startswith :: "pystr \<Rightarrow> pystr \<Rightarrow> bool" where
  "startswith s p = (take (length p) s = p)"

text \<open>\<open>sub in s\<close>.\<close>

fun contains :: "pystr \<Rightarrow> pystr \<Rightarrow> bool" where
  "contains sub [] = (sub = [])"
| "contains sub (c # cs) = (startswith (c # cs) sub \<or> contains sub cs)"

text \<open>\<open>s.replace(old, new)\<close>: the non-overlapping occurrences of \<open>old\<close>, found from
  the left, are replaced. With an empty \<open>old\<close> Python puts \<open>new\<close> before every
  character and at the end.\<close>

function replace :: "pystr \<Rightarrow> pystr \<Rightarrow> pystr \<Rightarrow> pystr" where
  "replace old new s =
     (if old = [] then new @ concat (map (\<lambda>c. c # new) s)
      else if s = [] then []
      else if startswith s old then new @ replace old new (drop (length old) s)
      else hd s # replace old new (tl s))"
  by pat_completeness auto
termination
  by (relation "measure (\<lambda>(old, new, s). length s)") auto

text \<open>\<open>s.split()\<close> with no argument: the maximal runs of non-whitespace characters.
  \<open>cur\<close> is the word being read.\<close>

fun split_run :: "pystr \<Rightarrow> pystr \<Rightarrow> pystr list" where
  "split_run cur [] = (if cur = [] then [] else [cur])"
| "split_run cur (c # cs) =
     (if isspace c then (if cur = [] then split_run [] cs else cur # split_run [] cs)
      else split_run (cur @ [c]) cs)"

definition split :: "pystr \<Rightarrow> pystr list" where
  "split s = split_run [] s"

text \<open>\<open>sep.join(xs)\<close>.\<close>

fun join :: "pystr \<Rightarrow> pystr list \<Rightarrow> pystr" where
  "join sep [] = []"
| "join sep [x] = x"
| "join sep (x # y # ys) = x @ sep @ join sep (y # ys)"

text \<open>\<open>s.rfind(sub)\<close>: the highest index where \<open>sub\<close> starts in \<open>s\<close>, or \<open>-1\<close>.\<close>

definition rfind :: "pystr \<Rightarrow> pystr \<Rightarrow> int" where
  "rfind s sub =
     (case filter (\<lambda>i. startswith (drop i s) sub) (rev [0..<Suc (length s)]) of
        [] \<Rightarrow> - 1
      | i # _ \<Rightarrow> int i)"

text \<open>\<open>str(n)\<close> for an integer, as an f-string formats it.\<close>

fun digits :: "nat \<Rightarrow> pystr" where
  "digits n = (if n < 10 then [48 + n] else digits (n div 10) @ [48 + n mod 10])"

definition str_of_int :: "int \<Rightarrow> pystr" where
  "str_of_int i = (if i < 0 then 45 # digits (nat (- i)) else digits (nat i))"

section \<open>Configuration\<close>

definition CHUNK_SIZE :: nat where "CHUNK_SIZE = 1000"
definition CHUNK_OVERLAP :: nat where "CHUNK_OVERLAP = 200"

section \<open>Pages and chunks\<close>

record page =
  p_page :: int
  p_text :: pystr

record chunk =
  c_chunk_index :: nat
  c_page :: int
  c_text :: pystr

text \<open>\<open>extract_pages_from_pdf\<close>: the PDF reader is outside the program; its pages are
  given by what \<open>extract_text()\<close> returns for each (\<open>None\<close> is read as the empty
  string). Pages are numbered from 1.\<close>

definition extract_pages_from_pdf :: "pystr option list \<Rightarrow> page list" where
  "extract_pages_from_pdf reader_pages =
     map (\<lambda>(i, t). \<lparr>p_page = int i + 1, p_text = (case t of None \<Rightarrow> [] | Some s \<Rightarrow> s)\<rparr>)
       (enumerate 0 reader_pages)"

text \<open>The \<open>while start < len(text)\<close> loop of \<open>chunk_pages\<close> for one page. The state
  is the list of chunks emitted so far and the next \<open>chunk_index\<close>. \<open>start\<close> is never
  negative: \<open>end - CHUNK_OVERLAP\<close> is \<open>start + 800\<close>.\<close>

function chunk_page_loop :: "pystr \<Rightarrow> int \<Rightarrow> nat \<Rightarrow> chunk list \<times> nat \<Rightarrow> chunk list \<times> nat" where
  "chunk_page_loop text page_number start (chunks, chunk_index) =
     (if start < length text then
        (let end = start + CHUNK_SIZE;
             chunk_str = strip (slice start end text)
         in chunk_page_loop text page_number (end - CHUNK_OVERLAP)
              (if chunk_str \<noteq> [] then
                 (chunks @ [\<lparr>c_chunk_index = chunk_index, c_page = page_number,
                              c_text = chunk_str\<rparr>], chunk_index + 1)
               else (chunks, chunk_index)))
      else (chunks, chunk_index))"
  by pat_completeness auto
termination
  by (relation "measure (\<lambda>(text, page_number, start, st). length text - start)")
     (auto simp: CHUNK_SIZE_def CHUNK_OVERLAP_def)

text \<open>The \<open>for page in pages\<close> loop: \<open>chunk_index\<close> is carried from page to page.\<close>

fun chunk_pages_loop :: "page list \<Rightarrow> chunk list \<times> nat \<Rightarrow> chunk list \<times> nat" where
  "chunk_pages_loop [] st = st"
| "chunk_pages_loop (pg # pages) st =
     chunk_pages_loop pages (chunk_page_loop (p_text pg) (p_page pg) 0 st)"

text \<open>\<open>chunk_pages\<close>. Its assertion \<open>CHUNK_OVERLAP < CHUNK_SIZE\<close> holds for the
  configured constants (lemma \<open>chunk_config_ok\<close>), so the function never raises.\<close>

definition chunk_pages :: "page list \<Rightarrow> chunk list" where
  "chunk_pages pages = fst (chunk_pages_loop pages ([], 0))"

text \<open>The window starts of a page of \<open>n\<close> characters, in closed form: the multiples
  of \<open>CHUNK_SIZE - CHUNK_OVERLAP\<close> below \<open>n\<close>; and the trimmed, non-empty windows of a
  page text. The loop above is compared with them.\<close>

definition window_count :: "nat \<Rightarrow> nat" where
  "window_count n =
     (n + (CHUNK_SIZE - CHUNK_OVERLAP) - 1) div (CHUNK_SIZE - CHUNK_OVERLAP)"

definition window_starts :: "nat \<Rightarrow> nat list" where
  "window_starts n = map (\<lambda>k. k * (CHUNK_SIZE - CHUNK_OVERLAP)) [0..<window_count n]"

definition page_windows :: "pystr \<Rightarrow> pystr list" where
  "page_windows t =
     filter (\<lambda>w. w \<noteq> [])
       (map (\<lambda>s. strip (slice s (s + CHUNK_SIZE) t)) (window_starts (length t)))"

text \<open>The starts the loop still visits from \<open>start = s\<close> on a page of \<open>n\<close> characters.\<close>

definition starts_from :: "nat \<Rightarrow> nat \<Rightarrow> nat list" where
  "starts_from s n = map (\<lambda>k. s + k * 800) [0..<(n - s + 799) div 800]"

section \<open>The vector index\<close>

record metadata =
  md_doc_id :: "pystr option"
  md_page :: "int option"
  md_chunk_index :: "int option"

record 'e entry =
  e_id :: pystr
  e_document :: pystr
  e_metadata :: metadata
  e_embedding :: 'e

datatype 'e store_call =
  Delete_where_doc_id pystr
| Add "pystr list" "pystr list" "metadata list" "'e list"

text \<open>The Chroma collection is an external collaborator. Its state is the list of the
  stored vectors; \<open>calls\<close> journals every call the program makes on it, so that "no
  call was made" is a statement about the state.\<close>

record 'e collection =
  entries :: "'e entry list"
  calls :: "'e store_call list"

text \<open>Modelled from the spec: \<open>collection.delete(where={"doc_id": doc_id})\<close> of the
  vector store, which is not part of the repository. The spec's contract (sections 4.2
  and 6): delete by metadata filter purges every vector of that \<open>doc_id\<close>.\<close>

definition collection_delete :: "pystr \<Rightarrow> 'e collection \<Rightarrow> 'e collection" where
  "collection_delete doc_id c =
     c\<lparr>entries := filter (\<lambda>e. md_doc_id (e_metadata e) \<noteq> Some doc_id) (entries c),
       calls := calls c @ [Delete_where_doc_id doc_id]\<rparr>"

text \<open>Modelled from the spec: \<open>collection.add(ids, documents, metadatas, embeddings)\<close>
  of the vector store: the batch is stored, one vector per id. The embedding provider
  returns one vector per text (spec section 6), so the four lists have one length.\<close>

definition collection_add ::
  "pystr list \<Rightarrow> pystr list \<Rightarrow> metadata list \<Rightarrow> 'e list \<Rightarrow> 'e collection \<Rightarrow> 'e collection" where
  "collection_add ids documents metadatas embeddings c =
     c\<lparr>entries := entries c @
         map (\<lambda>(i, d, m, v). \<lparr>e_id = i, e_document = d, e_metadata = m, e_embedding = v\<rparr>)
           (zip ids (zip documents (zip metadatas embeddings))),
       calls := calls c @ [Add ids documents metadatas embeddings]\<rparr>"

section \<open>Indexing\<close>

definition NoExtractableText :: pystr where
  "NoExtractableText =
     py_str ''No extractable text found (scanned PDF). OCR not supported in v1.''"

definition NoValidChunks :: pystr where
  "NoValidChunks = py_str ''No valid text chunks found.''"

record index_summary =
  s_pages :: nat
  s_chunks :: nat

text \<open>\<open>index_doc_into_chroma\<close>. The embedding model and the collection are globals
  of the source; here \<open>encode\<close> is a parameter and the collection is passed and
  returned. The result is \<open>Inl\<close> of the message of \<open>{"error": ...}\<close> or \<open>Inr\<close> of the
  summary. \<open>reader_pages\<close> stands for the PDF at \<open>path\<close>.\<close>

definition index_doc_into_chroma ::
  "(pystr list \<Rightarrow> 'e list) \<Rightarrow> pystr \<Rightarrow> pystr option list \<Rightarrow> 'e collection \<Rightarrow>
     (pystr + index_summary) \<times> 'e collection" where
  "index_doc_into_chroma encode doc_id reader_pages c =
     (let pages = extract_pages_from_pdf reader_pages;
          full_text = join [NEWLINE] (map p_text pages)
      in if strip full_text = [] then (Inl NoExtractableText, c)
         else
           (let chunks = chunk_pages pages
            in if chunks = [] then (Inl NoValidChunks, c)
               else
                 (let ids = map (\<lambda>ch. doc_id @ py_str '':'' @ str_of_int (int (c_chunk_index ch))) chunks;
                      documents = map c_text chunks;
                      metadatas =
                        map (\<lambda>ch. \<lparr>md_doc_id = Some doc_id, md_page = Some (c_page ch),
                                   md_chunk_index = Some (int (c_chunk_index ch))\<rparr>) chunks;
                      c1 = collection_delete doc_id c;
                      embeddings = encode documents;
                      c2 = collection_add ids documents metadatas embeddings c1
                  in (Inr \<lparr>s_pages = length pages, s_chunks = length chunks\<rparr>, c2))))"

section \<open>Retrieval\<close>

text \<open>The response of \<open>collection.query\<close>: each of the three keys may be missing or
  \<open>None\<close>, and holds one list per query embedding. A distance is a float; it is read
  as a real number, which keeps the order of the values.\<close>

record query_result =
  documents :: "pystr option list list option"
  metadatas :: "metadata option list list option"
  distances :: "real option list list option"

record retrieved_chunk =
  r_text :: pystr
  r_page :: "int option"
  r_chunk_index :: "int option"
  r_similarity :: "real option"

text \<open>\<open>(res.get(key) or [[]])[0]\<close>.\<close>

definition first_batch :: "'a list list option \<Rightarrow> 'a list" where
  "first_batch v = (case v of None \<Rightarrow> [] | Some [] \<Rightarrow> [] | Some (b # _) \<Rightarrow> b)"

text \<open>The loop over \<open>zip(docs, metas, dists)\<close>: an entry with no text is skipped,
  \<open>(m or {}).get(...)\<close> reads the metadata, the similarity is one minus the distance.\<close>

fun score_rows :: "(pystr option \<times> metadata option \<times> real option) list \<Rightarrow> retrieved_chunk list" where
  "score_rows [] = []"
| "score_rows ((d, m, distance) # rows) =
     (case d of
        None \<Rightarrow> score_rows rows
      | Some doc \<Rightarrow>
          if doc = [] then score_rows rows
          else \<lparr>r_text = doc,
                r_page = (case m of None \<Rightarrow> None | Some md \<Rightarrow> md_page md),
                r_chunk_index = (case m of None \<Rightarrow> None | Some md \<Rightarrow> md_chunk_index md),
                r_similarity = (case distance of None \<Rightarrow> None | Some x \<Rightarrow> Some (1 - x))\<rparr>
               # score_rows rows)"

definition score_results :: "query_result \<Rightarrow> retrieved_chunk list" where
  "score_results res =
     (let docs = first_batch (documents res);
          metas = first_batch (metadatas res);
          dists = first_batch (distances res)
      in score_rows (zip docs (zip metas dists)))"

definition dedupe_key :: "retrieved_chunk \<Rightarrow> int option \<times> int option" where
  "dedupe_key r = (r_page r, r_chunk_index r)"

text \<open>The dedupe loop; the state is \<open>(seen_keys, deduped)\<close>.\<close>

fun dedupe_loop ::
  "retrieved_chunk list \<Rightarrow> (int option \<times> int option) set \<times> retrieved_chunk list \<Rightarrow>
     (int option \<times> int option) set \<times> retrieved_chunk list" where
  "dedupe_loop [] st = st"
| "dedupe_loop (r # rs) (seen_keys, deduped) =
     (let key = dedupe_key r
      in if key \<in> seen_keys then dedupe_loop rs (seen_keys, deduped)
         else dedupe_loop rs (insert key seen_keys, deduped @ [r]))"

definition dedupe :: "retrieved_chunk list \<Rightarrow> retrieved_chunk list" where
  "dedupe retrieved = snd (dedupe_loop retrieved ({}, []))"

text \<open>The sort key \<open>x.get("similarity") or 0.0\<close>.\<close>

definition similarity_key :: "retrieved_chunk \<Rightarrow> real" where
  "similarity_key r = (case r_similarity r of None \<Rightarrow> 0 | Some s \<Rightarrow> s)"

text \<open>\<open>xs.sort(key=key, reverse=True)\<close>: Python's sort is stable, and with
  \<open>reverse=True\<close> it keeps the original order of elements with equal keys (the list
  is reversed, sorted ascending and stably, and reversed again).\<close>

definition sort_reverse :: "('a \<Rightarrow> real) \<Rightarrow> 'a list \<Rightarrow> 'a list" where
  "sort_reverse key xs = rev (sort_key key (rev xs))"

text \<open>\<open>collection.query\<close> of the vector store, which is not part of the repository.
  The store validates the request before it searches: it raises when \<open>n_results\<close> is
  zero or negative. For a valid request the parameter \<open>query\<close> gives its response:
  \<open>query q_emb n_results doc_id\<close> is the response to
  \<open>collection.query(query_embeddings=q_emb, n_results=n_results, where={"doc_id": doc_id},
  ...)\<close>.\<close>

datatype store_error = InvalidNResults int

definition collection_query ::
  "('e list \<Rightarrow> int \<Rightarrow> pystr \<Rightarrow> query_result) \<Rightarrow> 'e list \<Rightarrow> int \<Rightarrow> pystr \<Rightarrow>
     store_error + query_result" where
  "collection_query query q_emb n_results doc_id =
     (if n_results \<le> 0 then Inl (InvalidNResults n_results)
      else Inr (query q_emb n_results doc_id))"

text \<open>\<open>retrieve_top_k\<close>. The embedding model and the collection are globals of the
  source; here \<open>encode\<close> and \<open>query\<close> are parameters. The exception of
  \<open>collection.query\<close> is not caught: it leaves \<open>retrieve_top_k\<close>, which then returns no
  list (\<open>Inl\<close>).\<close>

definition retrieve_top_k ::
  "(pystr list \<Rightarrow> 'e list) \<Rightarrow> ('e list \<Rightarrow> int \<Rightarrow> pystr \<Rightarrow> query_result) \<Rightarrow>
     pystr \<Rightarrow> pystr \<Rightarrow> int \<Rightarrow> store_error + retrieved_chunk list" where
  "retrieve_top_k encode query doc_id question top_k =
     (let q_emb = encode [question];
          n_results = max (top_k * 3) top_k
      in case collection_query query q_emb n_results doc_id of
           Inl e \<Rightarrow> Inl e
         | Inr res \<Rightarrow>
             (let retrieved = score_results res;
                  deduped = dedupe retrieved
              in Inr (slice_to top_k (sort_reverse similarity_key deduped))))"

section \<open>Evidence excerpts\<close>

text \<open>\<open>" ".join(text.replace(bullet, " ").split())\<close>: bullets become spaces, then every
  run of whitespace becomes one space and leading and trailing whitespace goes.\<close>

definition collapse :: "pystr \<Rightarrow> pystr" where
  "collapse t = join [SPACE] (split (replace [BULLET] [SPACE] t))"

text \<open>\<open>int(max_chars * 0.6)\<close>: the product is a float and \<open>int\<close> truncates toward
  zero. For every \<open>max_chars\<close> below \<open>2^50\<close> in absolute value the float product
  truncates to the same integer as the exact \<open>3 * max_chars / 5\<close>, which is what is
  written here.\<close>

definition int_mul_0_6 :: "int \<Rightarrow> int" where
  "int_mul_0_6 n = (if 0 \<le> n then (3 * n) div 5 else - ((3 * (- n)) div 5))"

definition trim_excerpt :: "pystr \<Rightarrow> int \<Rightarrow> pystr" where
  "trim_excerpt t0 max_chars =
     (if t0 = [] then []
      else
        (let t = collapse t0
         in if int (length t) \<le> max_chars then t
            else
              (let snippet = slice_to (max_chars + 40) t;
                   cut = rfind snippet [PERIOD]
               in if cut = - 1 \<or> cut < int_mul_0_6 max_chars
                  then rstrip (slice_to max_chars t) @ [ELLIPSIS]
                  else rstrip (slice_to (cut + 1) snippet) @ [ELLIPSIS])))"

section \<open>Prompt and answer\<close>

definition DQUOTE :: pychar where "DQUOTE = 34"

text \<open>How an f-string prints a page number that may be \<open>None\<close>.\<close>

definition format_page :: "int option \<Rightarrow> pystr" where
  "format_page p = (case p of None \<Rightarrow> py_str ''None'' | Some n \<Rightarrow> str_of_int n)"

definition build_prompt :: "pystr \<Rightarrow> retrieved_chunk list \<Rightarrow> pystr" where
  "build_prompt question retrieved_chunks =
     (let context_blocks =
            map (\<lambda>r. py_str ''(page '' @ format_page (r_page r) @ py_str '') '' @ r_text r)
              retrieved_chunks;
          context =
            join ([NEWLINE, NEWLINE] @ py_str ''---'' @ [NEWLINE, NEWLINE]) context_blocks
      in py_str ''You are a careful, precise assistant.'' @ [NEWLINE] @
         py_str ''Answer the user's question using ONLY the context below.'' @ [NEWLINE] @
         py_str ''Prefer either a short paragraph or a simple list where each item is on its own line.'' @ [NEWLINE] @
         py_str ''Write in plain text only: do NOT use Markdown formatting such as **bold**.'' @ [NEWLINE] @
         py_str ''Do NOT include citations like [chunk X] or (page X) inside the answer.'' @ [NEWLINE] @
         py_str ''If the answer is not in the context, say: '' @ [DQUOTE] @
         py_str ''I don't know based on the provided document.'' @ [DQUOTE] @ py_str ''.'' @
         [NEWLINE, NEWLINE] @
         py_str ''When listing multiple items, put each item on its own line starting with '- '. Avoid cramming many items into one long sentence.'' @
         [NEWLINE, NEWLINE] @
         py_str ''Question: '' @ question @ [NEWLINE, NEWLINE] @
         py_str ''Context:'' @ [NEWLINE] @ context @ [NEWLINE])"

text \<open>The post-processing of the model's output in \<open>ask\<close>: strip, remove every
  \<open>**\<close>, and break inline bullets onto lines of their own.\<close>

definition post_process :: "pystr \<Rightarrow> pystr" where
  "post_process output_text =
     (let answer = strip output_text;
          answer = replace (py_str ''**'') [] answer
      in if contains (py_str '' - '') answer \<and> \<not> contains (NEWLINE # py_str ''- '') answer
         then replace (py_str '' - '') (NEWLINE # py_str ''- '') answer
         else answer)"

text \<open>The lines of a text, split at every newline; used to state what the
  post-processing produces.\<close>

fun lines_run :: "pystr \<Rightarrow> pystr \<Rightarrow> pystr list" where
  "lines_run cur [] = [cur]"
| "lines_run cur (c # cs) =
     (if c = NEWLINE then cur # lines_run [] cs else lines_run (cur @ [c]) cs)"

definition lines_of :: "pystr \<Rightarrow> pystr list" where
  "lines_of s = lines_run [] s"

section \<open>The ask route\<close>

text \<open>The request body of \<open>/ask\<close> as it arrives (\<open>top_k\<close> may be omitted) and the
  \<open>AskRequest\<close> the schema makes of it.\<close>

record ask_body =
  b_doc_id :: pystr
  b_question :: pystr
  b_top_k :: "int option"

record ask_request =
  rq_doc_id :: pystr
  rq_question :: pystr
  rq_top_k :: int

definition AskRequest :: "ask_body \<Rightarrow> ask_request" where
  "AskRequest body =
     \<lparr>rq_doc_id = b_doc_id body, rq_question = b_question body,
      rq_top_k = (case b_top_k body of None \<Rightarrow> 5 | Some k \<Rightarrow> k)\<rparr>"

record evidence_item =
  ev_page :: "int option"
  ev_excerpt :: pystr

record ask_response =
  a_doc_id :: pystr
  a_question :: pystr
  a_answer :: pystr
  a_sources :: "int list"
  a_evidence :: "evidence_item list"

text \<open>How a request to \<open>/ask\<close> fails: with the \<open>HTTPException\<close> the route raises
  itself, or with an exception of the retrieval that the route does not catch.\<close>

datatype http_error = HTTPException int pystr | Unhandled store_error

definition FALLBACK_ANSWER :: pystr where
  "FALLBACK_ANSWER = py_str ''I don't know based on the provided document.''"

text \<open>\<open>ask\<close>. The language model is the parameter \<open>llm\<close>: for a prompt it gives
  \<open>Inr\<close> of the output text, or \<open>Inl\<close> of the text of the exception raised (a timeout
  or an upstream error). The second component of the result is the list of the prompts
  sent to the model, in order: it is empty exactly when the model was not called.\<close>

definition ask ::
  "(pystr \<Rightarrow> pystr + pystr) \<Rightarrow> (pystr list \<Rightarrow> 'e list) \<Rightarrow>
     ('e list \<Rightarrow> int \<Rightarrow> pystr \<Rightarrow> query_result) \<Rightarrow> ask_request \<Rightarrow>
     (http_error + ask_response) \<times> pystr list" where
  "ask llm encode query payload =
     (case retrieve_top_k encode query (rq_doc_id payload) (rq_question payload) (rq_top_k payload) of
        Inl e \<Rightarrow> (Inl (Unhandled e), [])
      | Inr retrieved \<Rightarrow>
         if retrieved = [] then
           (Inr \<lparr>a_doc_id = rq_doc_id payload, a_question = rq_question payload,
                 a_answer = FALLBACK_ANSWER, a_sources = [], a_evidence = []\<rparr>, [])
         else
           (let prompt = build_prompt (rq_question payload) retrieved
            in case llm prompt of
                 Inl exc \<Rightarrow>
                   (Inl (HTTPException 502 (py_str ''Upstream model error or timeout: '' @ exc)),
                    [prompt])
               | Inr output_text \<Rightarrow>
                   (let answer = post_process output_text;
                        pages_used = sort (remdups (List.map_filter r_page retrieved));
                        evidence =
                          map (\<lambda>r. \<lparr>ev_page = r_page r, ev_excerpt = trim_excerpt (r_text r) 260\<rparr>)
                            (slice_to 2 retrieved)
                    in (Inr \<lparr>a_doc_id = rq_doc_id payload, a_question = rq_question payload,
                              a_answer = answer, a_sources = pages_used,
                              a_evidence = evidence\<rparr>, [prompt]))))"

section \<open>Auxiliary definitions\<close>

text \<open>The entries whose key was not seen before, in order: what the dedupe loop
  appends to \<open>deduped\<close>.\<close>

fun first_by_key :: "(int option \<times> int option) set \<Rightarrow> retrieved_chunk list \<Rightarrow> retrieved_chunk list" where
  "first_by_key seen [] = []"
| "first_by_key seen (r # rs) =
     (if dedupe_key r \<in> seen then first_by_key seen rs
      else r # first_by_key (insert (dedupe_key r) seen) rs)"

text \<open>An example response of the collection: three rows, the third a duplicate of the
  first.\<close>

definition example_query :: "nat list \<Rightarrow> int \<Rightarrow> pystr \<Rightarrow> query_result" where
  "example_query q_emb n_results doc_id =
     \<lparr>documents = Some [[Some (py_str ''a''), Some (py_str ''b''), Some (py_str ''a'')]],
      metadatas = Some [[
        Some \<lparr>md_doc_id = Some doc_id, md_page = Some 1, md_chunk_index = Some 0\<rparr>,
        Some \<lparr>md_doc_id = Some doc_id, md_page = Some 1, md_chunk_index = Some 1\<rparr>,
        Some \<lparr>md_doc_id = Some doc_id, md_page = Some 1, md_chunk_index = Some 0\<rparr>]],
      distances = Some [[Some (3 / 10), Some (1 / 10), Some (3 / 10)]]\<rparr>"

text \<open>A line that starts with \<open>"- "\<close>.\<close>

definition bullet_line :: "pystr \<Rightarrow> bool" where
  "bullet_line l = startswith l (py_str ''- '')"

text \<open>An example response of the collection for a document it does not hold.\<close>

definition empty_query :: "nat list \<Rightarrow> int \<Rightarrow> pystr \<Rightarrow> query_result" where
  "empty_query q_emb n_results doc_id =
     \<lparr>documents = Some [[]], metadatas = Some [[]], distances = Some [[]]\<rparr>"

section \<open>The chunker\<close>

declare chunk_page_loop.simps [simp del]

lemma chunk_config_ok: "CHUNK_OVERLAP < CHUNK_SIZE"
  by (simp add: CHUNK_SIZE_def CHUNK_OVERLAP_def)

lemma loop_stop: "\<not> s < length t \<Longrightarrow> chunk_page_loop t pn s st = st"
  by (cases st) (simp add: chunk_page_loop.simps)

lemma loop_step_empty:
  "s < length t \<Longrightarrow> strip (slice s (s + CHUNK_SIZE) t) = [] \<Longrightarrow>
   chunk_page_loop t pn s (chunks, idx) = chunk_page_loop t pn (s + 800) (chunks, idx)"
  by (simp add: chunk_page_loop.simps [of t pn s] Let_def CHUNK_SIZE_def CHUNK_OVERLAP_def add.commute)

lemma loop_step_emit:
  "s < length t \<Longrightarrow> strip (slice s (s + CHUNK_SIZE) t) \<noteq> [] \<Longrightarrow>
   chunk_page_loop t pn s (chunks, idx) =
     chunk_page_loop t pn (s + 800)
       (chunks @ [\<lparr>c_chunk_index = idx, c_page = pn,
                    c_text = strip (slice s (s + CHUNK_SIZE) t)\<rparr>], Suc idx)"
  by (simp add: chunk_page_loop.simps [of t pn s] Let_def CHUNK_SIZE_def CHUNK_OVERLAP_def add.commute)

lemma loop_index:
  "map c_chunk_index (fst st) = [0..<snd st] \<Longrightarrow>
   map c_chunk_index (fst (chunk_page_loop t pn s st)) =
     [0..<snd (chunk_page_loop t pn s st)]"
proof (induction t pn s st rule: chunk_page_loop.induct)
  case (1 t pn s chunks idx)
  show ?case
  proof (cases "s < length t")
    case False
    then show ?thesis using 1 by (simp add: loop_stop)
  next
    case True
    have step: "s + CHUNK_SIZE - CHUNK_OVERLAP = s + 800"
      by (simp add: CHUNK_SIZE_def CHUNK_OVERLAP_def)
    show ?thesis
    proof (cases "strip (slice s (s + CHUNK_SIZE) t) = []")
      case e: True
      with "1.IH" [OF True refl refl] "1.prems" show ?thesis
        by (simp add: loop_step_empty [OF True] step)
    next
      case e: False
      with "1.IH" [OF True refl refl] "1.prems" show ?thesis
        by (simp add: loop_step_emit [OF True] step)
    qed
  qed
qed

lemma pages_index:
  "map c_chunk_index (fst st) = [0..<snd st] \<Longrightarrow>
   map c_chunk_index (fst (chunk_pages_loop pages st)) =
     [0..<snd (chunk_pages_loop pages st)]"
  by (induction pages arbitrary: st) (auto simp: loop_index)

lemma chunk_pages_indices:
  "map c_chunk_index (chunk_pages pages) = [0..<length (chunk_pages pages)]"
proof -
  have "map c_chunk_index (chunk_pages pages) = [0..<snd (chunk_pages_loop pages ([], 0))]"
    unfolding chunk_pages_def by (rule pages_index) simp
  moreover from this have "length (chunk_pages pages) = snd (chunk_pages_loop pages ([], 0))"
    by (metis length_map length_upt minus_nat.diff_0)
  ultimately show ?thesis by simp
qed

lemma starts_from_stop: "\<not> s < n \<Longrightarrow> starts_from s n = []"
  by (simp add: starts_from_def)

lemma starts_from_step:
  assumes "s < n"
  shows "starts_from s n = s # starts_from (s + 800) n"
proof -
  have m: "(n - s + 799) div 800 = Suc ((n - (s + 800) + 799) div 800)"
    using assms by (cases "n < s + 800") (simp_all add: div_nat_eqI)
  have "map (\<lambda>k. s + k * 800) [0..<Suc m] = s # map (\<lambda>k. s + 800 + k * 800) [0..<m]" for m
    by (simp add: upt_conv_Cons map_Suc_upt [symmetric] del: upt_Suc)
  then show ?thesis
    by (simp add: starts_from_def m)
qed

lemma window_starts_from: "window_starts n = starts_from 0 n"
  by (simp add: window_starts_def window_count_def starts_from_def CHUNK_SIZE_def
      CHUNK_OVERLAP_def add.commute)

lemma window_count_iff: "(k < window_count m) = (k * (CHUNK_SIZE - CHUNK_OVERLAP) < m)"
  unfolding window_count_def CHUNK_SIZE_def CHUNK_OVERLAP_def by (simp add: less_eq_div_iff_mult_less_eq div_less_iff_less_mult) arith

lemma loop_windows:
  "map (\<lambda>c. (c_page c, c_text c)) (fst (chunk_page_loop t pn s st)) =
     map (\<lambda>c. (c_page c, c_text c)) (fst st) @
     map (Pair pn) (filter (\<lambda>w. w \<noteq> [])
       (map (\<lambda>s. strip (slice s (s + CHUNK_SIZE) t)) (starts_from s (length t))))"
proof (induction t pn s st rule: chunk_page_loop.induct)
  case (1 t pn s chunks idx)
  show ?case
  proof (cases "s < length t")
    case False
    then show ?thesis by (simp add: loop_stop starts_from_stop)
  next
    case True
    have step: "s + CHUNK_SIZE - CHUNK_OVERLAP = s + 800"
      by (simp add: CHUNK_SIZE_def CHUNK_OVERLAP_def)
    show ?thesis
    proof (cases "strip (slice s (s + CHUNK_SIZE) t) = []")
      case e: True
      with "1" [OF True refl refl] show ?thesis
        by (simp add: loop_step_empty [OF True] step starts_from_step [OF True])
    next
      case e: False
      with "1" [OF True refl refl] show ?thesis
        by (simp add: loop_step_emit [OF True] step starts_from_step [OF True])
    qed
  qed
qed

lemma pages_windows:
  "map (\<lambda>c. (c_page c, c_text c)) (fst (chunk_pages_loop pages st)) =
     map (\<lambda>c. (c_page c, c_text c)) (fst st) @
     concat (map (\<lambda>pg. map (Pair (p_page pg)) (page_windows (p_text pg))) pages)"
  by (induction pages arbitrary: st) (simp_all add: loop_windows page_windows_def window_starts_from)

lemma dropWhile_none: "list_all (\<lambda>c. \<not> P c) s \<Longrightarrow> dropWhile P s = s"
  by (cases s) simp_all

lemma strip_no_space: "list_all (\<lambda>c. \<not> isspace c) s \<Longrightarrow> strip s = s"
proof -
  assume a: "list_all (\<lambda>c. \<not> isspace c) s"
  then have "list_all (\<lambda>c. \<not> isspace c) (rev s)" by (simp add: list_all_iff)
  with a show ?thesis by (simp add: strip_def lstrip_def rstrip_def dropWhile_none)
qed

lemma list_all_slice: "list_all P s \<Longrightarrow> list_all P (slice a b s)"
  by (auto simp: slice_def list_all_iff dest: in_set_takeD in_set_dropD)

lemma scenario_1200:
  assumes len: "length t = 1200" and ns: "list_all (\<lambda>c. \<not> isspace c) t"
  shows "chunk_pages [\<lparr>p_page = n, p_text = t\<rparr>] =
        [\<lparr>c_chunk_index = 0, c_page = n, c_text = slice 0 1000 t\<rparr>,
         \<lparr>c_chunk_index = 1, c_page = n, c_text = slice 800 1200 t\<rparr>]"
proof -
  have w0: "strip (slice 0 (0 + CHUNK_SIZE) t) = slice 0 1000 t"
    using ns by (simp add: strip_no_space list_all_slice CHUNK_SIZE_def)
  have w1: "strip (slice 800 (800 + CHUNK_SIZE) t) = slice 800 1200 t"
  proof -
    have "slice 800 (800 + CHUNK_SIZE) t = slice 800 1200 t"
      using len by (simp add: slice_def CHUNK_SIZE_def)
    then show ?thesis using ns by (simp add: strip_no_space list_all_slice)
  qed
  have n0: "slice 0 1000 t \<noteq> []" and n1: "slice 800 1200 t \<noteq> []"
    using len by (auto simp: slice_def)
  have "chunk_page_loop t n 0 ([], 0) =
      chunk_page_loop t n 800 ([\<lparr>c_chunk_index = 0, c_page = n, c_text = slice 0 1000 t\<rparr>], Suc 0)"
    using loop_step_emit [of 0 t n "[]" 0] len w0 n0 by simp
  also have "\<dots> = chunk_page_loop t n 1600 ([\<lparr>c_chunk_index = 0, c_page = n, c_text = slice 0 1000 t\<rparr>,
         \<lparr>c_chunk_index = 1, c_page = n, c_text = slice 800 1200 t\<rparr>], Suc (Suc 0))"
    using loop_step_emit [of 800 t n "[\<lparr>c_chunk_index = 0, c_page = n, c_text = slice 0 1000 t\<rparr>]" "Suc 0"]
      len w1 n1 by simp
  also have "\<dots> = ([\<lparr>c_chunk_index = 0, c_page = n, c_text = slice 0 1000 t\<rparr>,
         \<lparr>c_chunk_index = 1, c_page = n, c_text = slice 800 1200 t\<rparr>], Suc (Suc 0))"
    using len by (simp add: loop_stop)
  finally show ?thesis by (simp add: chunk_pages_def)
qed


text \<open>
  Claim C2. A page of 1200 characters with no whitespace gives exactly two chunks, the
  characters \<open>[0:1000]\<close> and \<open>[800:1200]\<close> of the page text. In general the chunks of
  a document are, page by page, the trimmed non-empty windows of length \<open>CHUNK_SIZE\<close> that
  start at the offsets \<open>k * (CHUNK_SIZE - CHUNK_OVERLAP)\<close>: the first start is 0, each
  step advances by \<open>CHUNK_SIZE - CHUNK_OVERLAP = 800\<close>, and a start is visited exactly when
  it is below the length of the page text.
\<close>

theorem chunk_pages_windows:
  "(length t = 1200 \<and> list_all (\<lambda>c. \<not> isspace c) t \<longrightarrow>
      chunk_pages [\<lparr>p_page = n, p_text = t\<rparr>] =
        [\<lparr>c_chunk_index = 0, c_page = n, c_text = slice 0 1000 t\<rparr>,
         \<lparr>c_chunk_index = 1, c_page = n, c_text = slice 800 1200 t\<rparr>]) \<and>
   map (\<lambda>c. (c_page c, c_text c)) (chunk_pages pages) =
     concat (map (\<lambda>pg. map (Pair (p_page pg)) (page_windows (p_text pg))) pages) \<and>
   (\<forall>k. (k < window_count m) = (k * (CHUNK_SIZE - CHUNK_OVERLAP) < m)) \<and>
   CHUNK_SIZE = 1000 \<and> CHUNK_OVERLAP = 200"
proof -
  have "map (\<lambda>c. (c_page c, c_text c)) (chunk_pages pages) =
     concat (map (\<lambda>pg. map (Pair (p_page pg)) (page_windows (p_text pg))) pages)"
    unfolding chunk_pages_def by (simp add: pages_windows)
  then show ?thesis
    using scenario_1200 window_count_iff by (simp add: CHUNK_SIZE_def CHUNK_OVERLAP_def)
qed

theorem chunk_pages_windows_witness:
  "length (replicate 1200 (of_char CHR ''A'') :: pystr) = 1200 \<and>
   list_all (\<lambda>c. \<not> isspace c) (replicate 1200 (of_char CHR ''A'')) \<and>
   chunk_pages [\<lparr>p_page = 1, p_text = replicate 1200 (of_char CHR ''A'')\<rparr>] =
     [\<lparr>c_chunk_index = 0, c_page = 1, c_text = replicate 1000 (of_char CHR ''A'')\<rparr>,
      \<lparr>c_chunk_index = 1, c_page = 1, c_text = replicate 400 (of_char CHR ''A'')\<rparr>] \<and>
   window_starts 1200 = [0, 800]"
proof -
  have a: "list_all (\<lambda>c. \<not> isspace c) (replicate 1200 (of_char CHR ''A''))"
    by (simp add: list_all_iff isspace_def)
  have w: "window_starts 1200 = [0, 800]"
    by (simp add: window_starts_def window_count_def CHUNK_SIZE_def CHUNK_OVERLAP_def upt_conv_Cons)
  show ?thesis
    using a w chunk_pages_windows [of "replicate 1200 (of_char CHR ''A'')" 1 "[]" 0]
    by (simp add: slice_def)
qed

text \<open>
  Claim C7. The \<open>chunk_index\<close> values of the chunks of a document are \<open>0, 1, 2, ...\<close> in
  emission order, over all pages (unique, zero-based, each one more than the one before,
  not reset per page). A window that is empty after trimming emits no chunk and leaves
  the index as it is, and the loop goes on with the next window start; a non-empty
  window emits one chunk with the current index and increments it.
\<close>

theorem chunk_index_monotone:
  "map c_chunk_index (chunk_pages pages) = [0..<length (chunk_pages pages)] \<and>
   distinct (map c_chunk_index (chunk_pages pages)) \<and>
   (s < length t \<and> strip (slice s (s + CHUNK_SIZE) t) = [] \<longrightarrow>
      chunk_page_loop t pn s (chunks, idx) =
        chunk_page_loop t pn (s + (CHUNK_SIZE - CHUNK_OVERLAP)) (chunks, idx)) \<and>
   (s < length t \<and> strip (slice s (s + CHUNK_SIZE) t) \<noteq> [] \<longrightarrow>
      chunk_page_loop t pn s (chunks, idx) =
        chunk_page_loop t pn (s + (CHUNK_SIZE - CHUNK_OVERLAP))
          (chunks @ [\<lparr>c_chunk_index = idx, c_page = pn,
                       c_text = strip (slice s (s + CHUNK_SIZE) t)\<rparr>], idx + 1))"
proof -
  have step: "s + (CHUNK_SIZE - CHUNK_OVERLAP) = s + 800"
    by (simp add: CHUNK_SIZE_def CHUNK_OVERLAP_def)
  have "distinct (map c_chunk_index (chunk_pages pages))"
    by (subst chunk_pages_indices) simp
  then show ?thesis
    using chunk_pages_indices [of pages] loop_step_empty [of s t pn chunks idx]
      loop_step_emit [of s t pn chunks idx]
    by (simp add: step)
qed

theorem chunk_index_monotone_witness:
  "map c_chunk_index
     (chunk_pages [\<lparr>p_page = 1, p_text = py_str ''ab''\<rparr>, \<lparr>p_page = 2, p_text = py_str ''  ''\<rparr>,
                   \<lparr>p_page = 3, p_text = py_str ''cd''\<rparr>]) = [0, 1] \<and>
   (0::nat) < length (py_str ''  '') \<and> strip (slice 0 (0 + CHUNK_SIZE) (py_str ''  '')) = [] \<and>
   chunk_page_loop (py_str ''  '') 2 0 ([], 0) = chunk_page_loop (py_str ''  '') 2 800 ([], 0) \<and>
   (0::nat) < length (py_str ''ab'') \<and> strip (slice 0 (0 + CHUNK_SIZE) (py_str ''ab'')) \<noteq> [] \<and>
   chunk_page_loop (py_str ''ab'') 1 0 ([], 0) =
     ([\<lparr>c_chunk_index = 0, c_page = 1, c_text = py_str ''ab''\<rparr>], 1)"
proof -
  have e: "strip (slice 0 (0 + CHUNK_SIZE) (py_str ''  '')) = []"
    by (simp add: strip_def lstrip_def rstrip_def slice_def py_str_def isspace_def CHUNK_SIZE_def)
  have f: "strip (slice 0 (0 + CHUNK_SIZE) (py_str ''ab'')) = py_str ''ab''"
    by (simp add: strip_def lstrip_def rstrip_def slice_def py_str_def isspace_def CHUNK_SIZE_def)
  have g: "strip (slice 0 (0 + CHUNK_SIZE) (py_str ''cd'')) = py_str ''cd''"
    by (simp add: strip_def lstrip_def rstrip_def slice_def py_str_def isspace_def CHUNK_SIZE_def)
  have l: "length (py_str ''  '') = 2" "length (py_str ''ab'') = 2" "length (py_str ''cd'') = 2"
    "py_str ''ab'' \<noteq> []" "py_str ''cd'' \<noteq> []"
    by (simp_all add: py_str_def)
  have p: "chunk_pages [\<lparr>p_page = 1, p_text = py_str ''ab''\<rparr>, \<lparr>p_page = 2, p_text = py_str ''  ''\<rparr>,
                   \<lparr>p_page = 3, p_text = py_str ''cd''\<rparr>] =
     [\<lparr>c_chunk_index = 0, c_page = 1, c_text = py_str ''ab''\<rparr>,
      \<lparr>c_chunk_index = 1, c_page = 3, c_text = py_str ''cd''\<rparr>]"
    using e f g l by (simp add: chunk_pages_def loop_step_emit loop_step_empty loop_stop)
  show ?thesis
    using e f l p
      chunk_index_monotone [of "[\<lparr>p_page = 1, p_text = py_str ''ab''\<rparr>,
          \<lparr>p_page = 2, p_text = py_str ''  ''\<rparr>, \<lparr>p_page = 3, p_text = py_str ''cd''\<rparr>]"
        0 "py_str ''  ''" 2 "[]" 0]
      chunk_index_monotone [of "[]" 0 "py_str ''ab''" 1 "[]" 0]
    by (simp add: CHUNK_SIZE_def CHUNK_OVERLAP_def loop_stop)
qed

section \<open>Retrieval: deduplication and ranking\<close>







lemma first_by_key_keys:
  "dedupe_key ` set (first_by_key seen rs) = dedupe_key ` set rs - seen"
  by (induction rs arbitrary: seen) auto




lemma sort_reverse_length: "length (sort_reverse key xs) = length xs"
  by (simp add: sort_reverse_def)


lemma slice_to_take: "0 \<le> n \<Longrightarrow> slice_to n xs = take (nat n) xs"
  by (simp add: slice_to_def)

lemma retrieve_top_k_answered:
  "0 < k \<Longrightarrow>
   retrieve_top_k encode query d q k =
     Inr (take (nat k) (sort_reverse similarity_key
       (dedupe (score_results (query (encode [q]) (max (k * 3) k) d)))))"
  by (simp add: retrieve_top_k_def collection_query_def Let_def slice_to_take)





lemma example_retrieved:
  "score_results (example_query e n d) =
     [\<lparr>r_text = py_str ''a'', r_page = Some 1, r_chunk_index = Some 0, r_similarity = Some (7 / 10)\<rparr>,
      \<lparr>r_text = py_str ''b'', r_page = Some 1, r_chunk_index = Some 1, r_similarity = Some (9 / 10)\<rparr>,
      \<lparr>r_text = py_str ''a'', r_page = Some 1, r_chunk_index = Some 0, r_similarity = Some (7 / 10)\<rparr>]"
  by (simp add: score_results_def example_query_def first_batch_def py_str_def)

lemma example_ranked:
  "sort_reverse similarity_key (dedupe (score_results (example_query e n d))) =
     [\<lparr>r_text = py_str ''b'', r_page = Some 1, r_chunk_index = Some 1, r_similarity = Some (9 / 10)\<rparr>,
      \<lparr>r_text = py_str ''a'', r_page = Some 1, r_chunk_index = Some 0, r_similarity = Some (7 / 10)\<rparr>]"
  by (simp add: example_retrieved dedupe_def dedupe_key_def sort_reverse_def similarity_key_def)



section \<open>Evidence excerpts: bounds\<close>

declare replace.simps [simp del]

lemma replace_single: "replace [a] [b] s = map (\<lambda>c. if c = a then b else c) s"
proof (induction s)
  case Nil
  then show ?case by (simp add: replace.simps [of "[a]" "[b]" "[]"])
next
  case (Cons c cs)
  then show ?case
    by (simp add: replace.simps [of "[a]" "[b]" "c # cs"] startswith_def)
qed

lemma split_run_concat:
  "concat (split_run cur s) = cur @ filter (\<lambda>c. \<not> isspace c) s"
  by (induction s arbitrary: cur) simp_all

lemma split_run_words:
  "list_all (\<lambda>c. \<not> isspace c) cur \<Longrightarrow> w \<in> set (split_run cur s) \<Longrightarrow>
   w \<noteq> [] \<and> list_all (\<lambda>c. \<not> isspace c) w"
proof (induction s arbitrary: cur)
  case Nil
  then show ?case by (auto split: if_splits)
next
  case (Cons c cs)
  show ?case
  proof (cases "isspace c")
    case True
    with Cons.prems have "w = cur \<and> cur \<noteq> [] \<or> w \<in> set (split_run [] cs)"
      by (auto split: if_splits)
    then show ?thesis
      using Cons.prems(1) Cons.IH [of "[]"] by auto
  next
    case False
    with Cons.prems have "w \<in> set (split_run (cur @ [c]) cs)" by simp
    moreover have "list_all (\<lambda>c. \<not> isspace c) (cur @ [c])"
      using Cons.prems(1) False by simp
    ultimately show ?thesis using Cons.IH by blast
  qed
qed

lemma split_run_plain:
  "list_all (\<lambda>c. \<not> isspace c) s \<Longrightarrow> split_run cur s = (if cur @ s = [] then [] else [cur @ s])"
  by (induction s arbitrary: cur) auto

lemma join_filter:
  "\<forall>w \<in> set ws. list_all (\<lambda>c. \<not> isspace c) w \<Longrightarrow>
   filter (\<lambda>c. \<not> isspace c) (join [SPACE] ws) = concat ws"
proof (induction "[SPACE]" ws rule: join.induct)
  case 1
  then show ?case by simp
next
  case (2 x)
  then show ?case by (simp add: list_all_iff filter_id_conv)
next
  case (3 x y ys)
  then show ?case by (simp add: list_all_iff filter_id_conv isspace_def SPACE_def)
qed

lemma join_set: "set (join sep ws) \<subseteq> set sep \<union> \<Union> (set ` set ws)"
  by (induction sep ws rule: join.induct) auto

lemma collapse_Nil: "collapse [] = []"
  by (simp add: collapse_def replace_single split_def)

lemma collapse_plain:
  assumes "list_all (\<lambda>c. \<not> isspace c \<and> c \<noteq> BULLET) t" and "t \<noteq> []"
  shows "collapse t = t"
proof -
  have "replace [BULLET] [SPACE] t = t"
    using assms(1) by (simp add: replace_single list_all_iff map_idI)
  moreover have "list_all (\<lambda>c. \<not> isspace c) t"
    using assms(1) by (simp add: list_all_iff)
  ultimately show ?thesis
    using assms(2) by (simp add: collapse_def split_def split_run_plain)
qed

lemma collapse_content:
  "filter (\<lambda>c. \<not> isspace c) (collapse t) = filter (\<lambda>c. \<not> isspace c \<and> c \<noteq> BULLET) t"
proof -
  let ?u = "replace [BULLET] [SPACE] t"
  have "\<forall>w \<in> set (split ?u). list_all (\<lambda>c. \<not> isspace c) w"
    using split_run_words [of "[]" _ ?u] by (auto simp: split_def)
  then have "filter (\<lambda>c. \<not> isspace c) (collapse t) = concat (split ?u)"
    unfolding collapse_def by (rule join_filter)
  also have "\<dots> = filter (\<lambda>c. \<not> isspace c) ?u"
    by (simp add: split_def split_run_concat)
  also have "\<dots> = filter (\<lambda>c. \<not> isspace c \<and> c \<noteq> BULLET) t"
    unfolding replace_single by (induction t) (auto simp: isspace_def SPACE_def BULLET_def)
  finally show ?thesis .
qed

lemma length_rstrip: "length (rstrip s) \<le> length s"
  by (simp add: rstrip_def) (metis length_dropWhile_le length_rev)

lemma length_slice_to: "0 \<le> n \<Longrightarrow> int (length (slice_to n s)) \<le> n"
  by (simp add: slice_to_def)

lemma length_slice_to_le: "length (slice_to n s) \<le> length s"
  by (simp add: slice_to_def)


lemma rstrip_snoc: "\<not> isspace c \<Longrightarrow> rstrip (xs @ [c]) = xs @ [c]"
  by (simp add: rstrip_def)

lemma rfind_snoc: "rfind (xs @ [c]) [c] = int (length xs)"
  by (simp add: rfind_def startswith_def)

lemma rfind_none: "c \<notin> set s \<Longrightarrow> rfind s [c] = - 1"
proof -
  assume a: "c \<notin> set s"
  have "filter (\<lambda>i. startswith (drop i s) [c]) is = []" for "is"
  proof -
    have "\<not> startswith (drop i s) [c]" for i
    proof
      assume "startswith (drop i s) [c]"
      then have "take 1 (drop i s) = [c]" by (simp add: startswith_def)
      then have "c \<in> set (take 1 (drop i s))" by simp
      then have "c \<in> set s" by (meson in_set_dropD in_set_takeD)
      with a show False by simp
    qed
    then show ?thesis by simp
  qed
  then show ?thesis by (simp add: rfind_def del: upt_Suc)
qed

text \<open>
  Claim C3 (amended). For every input text and every \<open>max_chars \<ge> 0\<close>, the length of
  \<open>trim_excerpt(text, max_chars)\<close> is at most \<open>max_chars + 41\<close>: the sentence-boundary
  branch cuts after the last period of a window of \<open>max_chars + 40\<close> characters and
  appends the ellipsis. In the hard-truncate branch (no period in the window, or only
  before position \<open>int(max_chars * 0.6)\<close>) the length is at most \<open>max_chars + 1\<close>.
\<close>

theorem trim_excerpt_bound:
  assumes "0 \<le> max_chars"
    and "t = collapse t0"
    and "cut_at = rfind (slice_to (max_chars + 40) t) [PERIOD]"
  shows "int (length (trim_excerpt t0 max_chars)) \<le> max_chars + 41 \<and>
     (cut_at = - 1 \<or> cut_at < int_mul_0_6 max_chars \<longrightarrow>
        int (length (trim_excerpt t0 max_chars)) \<le> max_chars + 1)"
proof -
  have hard: "int (length (rstrip (slice_to max_chars t) @ [ELLIPSIS])) \<le> max_chars + 1"
    using length_rstrip [of "slice_to max_chars t"] length_slice_to [OF assms(1), of t]
    by simp
  have "int (length (slice_to (max_chars + 40) t)) \<le> max_chars + 40"
    using assms(1) by (intro length_slice_to) simp
  moreover have "length (slice_to (cut_at + 1) (slice_to (max_chars + 40) t))
      \<le> length (slice_to (max_chars + 40) t)"
    by (rule length_slice_to_le)
  ultimately have sent:
    "int (length (rstrip (slice_to (cut_at + 1) (slice_to (max_chars + 40) t)) @ [ELLIPSIS]))
       \<le> max_chars + 41"
    using length_rstrip [of "slice_to (cut_at + 1) (slice_to (max_chars + 40) t)"] by simp
  show ?thesis
    using hard sent assms by (auto simp: trim_excerpt_def Let_def)
qed


theorem trim_excerpt_bound_witness:
  "(0::int) \<le> 3 \<and>
   rfind (slice_to (3 + 40) (collapse (py_str ''abcdefgh''))) [PERIOD] = - 1 \<and>
   trim_excerpt (py_str ''abcdefgh'') 3 = py_str ''abc'' @ [ELLIPSIS] \<and>
   int (length (trim_excerpt (py_str ''abcdefgh'') 3)) \<le> 3 + 41 \<and>
   int (length (trim_excerpt (py_str ''abcdefgh'') 3)) \<le> 3 + 1"
proof -
  have c: "collapse (py_str ''abcdefgh'') = py_str ''abcdefgh''"
    by (rule collapse_plain) (simp_all add: py_str_def isspace_def BULLET_def)
  have r: "rfind (slice_to (3 + 40) (collapse (py_str ''abcdefgh''))) [PERIOD] = - 1"
    unfolding c by (rule rfind_none) (simp add: slice_to_def py_str_def PERIOD_def)
  have t: "trim_excerpt (py_str ''abcdefgh'') 3 = py_str ''abc'' @ [ELLIPSIS]"
    using r by (simp add: trim_excerpt_def c Let_def)
       (simp add: py_str_def slice_to_def rstrip_def isspace_def)
  show ?thesis
    using r t trim_excerpt_bound [OF _ refl refl, of 3 "py_str ''abcdefgh''"]
    by simp
qed

text \<open>
  Claim C3 as stated (at most \<open>max_chars\<close> plus about 5 characters, in both branches)
  fails in the sentence-boundary branch: with \<open>max_chars = 260\<close>, a text of 299 letters,
  a period and 5 more letters is cut after the period, at 300 characters, and the
  excerpt has \<open>260 + 41\<close> characters. It also fails for a negative \<open>max_chars\<close>, where
  \<open>t[:max_chars]\<close> only drops the last characters of the text.
\<close>

theorem trim_excerpt_bound_counterexample:
  "trim_excerpt (replicate 299 97 @ [PERIOD] @ replicate 5 98) 260 =
     replicate 299 97 @ [PERIOD, ELLIPSIS] \<and>
   int (length (trim_excerpt (replicate 299 97 @ [PERIOD] @ replicate 5 98) 260)) = 260 + 41 \<and>
   \<not> int (length (trim_excerpt (replicate 299 97 @ [PERIOD] @ replicate 5 98) 260)) \<le> 260 + 5 \<and>
   trim_excerpt (replicate 50 97) (- 1) = replicate 49 97 @ [ELLIPSIS] \<and>
   \<not> int (length (trim_excerpt (replicate 50 97) (- 1))) \<le> - 1 + 5"
proof -
  define x :: pystr where "x = replicate 299 97 @ [PERIOD] @ replicate 5 98"
  define sn :: pystr where "sn = replicate 299 97 @ [PERIOD]"
  have c: "collapse x = x"
    unfolding x_def
    by (rule collapse_plain) (auto simp: list_all_iff isspace_def BULLET_def PERIOD_def)
  have n: "x \<noteq> []" and l: "length x = 305"
    by (simp_all add: x_def)
  have s: "slice_to (260 + 40) x = sn"
    by (simp add: slice_to_def x_def sn_def)
  have r: "rfind sn [PERIOD] = 299"
    unfolding sn_def using rfind_snoc [of "replicate 299 97" PERIOD] by simp
  have s2: "slice_to (299 + 1) sn = sn"
    by (simp add: slice_to_def sn_def)
  have p: "rstrip sn = sn"
    unfolding sn_def by (rule rstrip_snoc) (simp add: isspace_def PERIOD_def)
  have "trim_excerpt x 260 = sn @ [ELLIPSIS]"
    unfolding trim_excerpt_def Let_def c s r
    using n l s2 p by (simp add: int_mul_0_6_def)
  then have a: "trim_excerpt (replicate 299 97 @ [PERIOD] @ replicate 5 98) 260 =
      replicate 299 97 @ [PERIOD, ELLIPSIS]"
    by (simp add: x_def sn_def)
  define y :: pystr where "y = replicate 50 97"
  have c': "collapse y = y"
    unfolding y_def
    by (rule collapse_plain) (auto simp: list_all_iff isspace_def BULLET_def)
  have n': "y \<noteq> []" and l': "length y = 50"
    by (simp_all add: y_def)
  have r': "rfind (slice_to (- 1 + 40) y) [PERIOD] = - 1"
    by (rule rfind_none) (simp add: slice_to_def PERIOD_def y_def)
  have s': "slice_to (- 1) y = replicate 49 97"
    by (simp add: slice_to_def y_def)
  have "list_all (\<lambda>c. \<not> isspace c) (rev (replicate 49 97 :: pystr))"
    by (simp add: list_all_iff isspace_def)
  then have p': "rstrip (replicate 49 97) = replicate 49 97"
    unfolding rstrip_def by (simp only: dropWhile_none rev_rev_ident)
  have "trim_excerpt y (- 1) = replicate 49 97 @ [ELLIPSIS]"
    unfolding trim_excerpt_def Let_def c' r'
    using n' l' s' p' by simp
  then have b: "trim_excerpt (replicate 50 97) (- 1) = replicate 49 97 @ [ELLIPSIS]"
    by (simp add: y_def)
  show ?thesis
    unfolding a b by simp
qed

lemma collapse_chars:
  assumes "c \<in> set (collapse t)"
  shows "c = SPACE \<or> \<not> isspace c \<and> c \<noteq> BULLET"
proof (cases "c = SPACE")
  case True
  then show ?thesis by simp
next
  case False
  let ?u = "replace [BULLET] [SPACE] t"
  from assms have "c \<in> set [SPACE] \<union> \<Union> (set ` set (split ?u))"
    unfolding collapse_def using join_set by blast
  with False obtain w where w: "w \<in> set (split ?u)" and cw: "c \<in> set w" by auto
  from w have "list_all (\<lambda>c. \<not> isspace c) w"
    using split_run_words [of "[]" w ?u] by (simp add: split_def)
  with cw have ns: "\<not> isspace c" by (simp add: list_all_iff)
  from w cw have "c \<in> set (concat (split ?u))" by auto
  then have "c \<in> set ?u" by (simp add: split_def split_run_concat)
  then have "c \<noteq> BULLET"
    using False by (auto simp: replace_single)
  with ns show ?thesis by simp
qed

text \<open>
  Claim C9. When the collapsed form of the text is at most \<open>max_chars\<close> characters
  long, \<open>trim_excerpt\<close> returns exactly the collapsed form, with no ellipsis. The
  collapsed form keeps the characters of the text that are neither whitespace nor the
  bullet glyph, in order, and besides them holds single spaces only.
\<close>

theorem trim_excerpt_short:
  assumes "int (length (collapse t0)) \<le> max_chars"
  shows "trim_excerpt t0 max_chars = collapse t0 \<and>
     filter (\<lambda>c. \<not> isspace c) (collapse t0) = filter (\<lambda>c. \<not> isspace c \<and> c \<noteq> BULLET) t0 \<and>
     (\<forall>c \<in> set (collapse t0). c = SPACE \<or> \<not> isspace c \<and> c \<noteq> BULLET)"
proof -
  have "trim_excerpt t0 max_chars = collapse t0"
    using assms by (cases "t0 = []") (simp_all add: trim_excerpt_def collapse_Nil Let_def)
  then show ?thesis
    using collapse_content collapse_chars by blast
qed

theorem trim_excerpt_short_witness:
  "collapse [SPACE, 97, BULLET, NEWLINE, SPACE, 98, 46, SPACE] = [97, SPACE, 98, 46] \<and>
   int (length (collapse [SPACE, 97, BULLET, NEWLINE, SPACE, 98, 46, SPACE])) \<le> 260 \<and>
   trim_excerpt [SPACE, 97, BULLET, NEWLINE, SPACE, 98, 46, SPACE] 260 = [97, SPACE, 98, 46]"
proof -
  have c: "collapse [SPACE, 97, BULLET, NEWLINE, SPACE, 98, 46, SPACE] = [97, SPACE, 98, 46]"
    by (simp add: collapse_def replace_single split_def isspace_def SPACE_def BULLET_def
        NEWLINE_def)
  show ?thesis
    using c trim_excerpt_short [of "[SPACE, 97, BULLET, NEWLINE, SPACE, 98, 46, SPACE]" 260]
    by simp
qed

section \<open>Answer post-processing\<close>

lemma replace_Nil: "old \<noteq> [] \<Longrightarrow> replace old new [] = []"
  by (simp add: replace.simps [of old new "[]"])

lemma replace_hit:
  "old \<noteq> [] \<Longrightarrow> startswith (c # cs) old \<Longrightarrow>
   replace old new (c # cs) = new @ replace old new (drop (length old) (c # cs))"
  by (simp add: replace.simps [of old new "c # cs"])

lemma replace_miss:
  "old \<noteq> [] \<Longrightarrow> \<not> startswith (c # cs) old \<Longrightarrow>
   replace old new (c # cs) = c # replace old new cs"
  by (simp add: replace.simps [of old new "c # cs"])

lemma replace_delete_set: "set (replace old [] s) \<subseteq> set s"
proof (induction s rule: length_induct)
  case (1 s)
  show ?case
  proof (cases "old = []")
    case True
    then show ?thesis by (simp add: replace.simps [of "[]" "[]" s])
  next
    case False
    show ?thesis
    proof (cases s)
      case Nil
      with False show ?thesis by (simp add: replace_Nil)
    next
      case (Cons c cs)
      show ?thesis
      proof (cases "startswith s old")
        case True
        have "length (drop (length old) s) < length s"
          using False Cons by simp
        then have "set (replace old [] (drop (length old) s)) \<subseteq> set (drop (length old) s)"
          using "1.IH" by blast
        then have "set (replace old [] s) \<subseteq> set (drop (length old) s)"
          using True False Cons by (simp add: replace_hit)
        then show ?thesis by (meson in_set_dropD subset_iff)
      next
        case n: False
        have "set (replace old [] cs) \<subseteq> set cs"
          using "1.IH" Cons by simp
        then show ?thesis
          using n False Cons by (auto simp: replace_miss)
      qed
    qed
  qed
qed

lemma strip_set: "set (strip s) \<subseteq> set s"
proof -
  have "set (rstrip u) \<subseteq> set u" for u
    unfolding rstrip_def using set_dropWhileD [of _ isspace "rev u"] by auto
  moreover have "set (lstrip s) \<subseteq> set s"
    unfolding lstrip_def using set_dropWhileD [of _ isspace s] by auto
  ultimately show ?thesis unfolding strip_def by blast
qed

lemma lines_run_plain: "NEWLINE \<notin> set s \<Longrightarrow> lines_run cur s = [cur @ s]"
  by (induction s arbitrary: cur) auto

lemma lines_run_hd: "\<exists>rest ls. lines_run cur s = (cur @ rest) # ls"
proof (induction s arbitrary: cur)
  case Nil
  then show ?case by simp
next
  case (Cons c cs)
  show ?case
  proof (cases "c = NEWLINE")
    case True
    then show ?thesis by simp
  next
    case False
    from Cons [of "cur @ [c]"] obtain rest ls
      where "lines_run (cur @ [c]) cs = (cur @ [c] @ rest) # ls" by auto
    with False show ?thesis by simp
  qed
qed

lemma reflow_lines:
  "NEWLINE \<notin> set s \<Longrightarrow>
   list_all bullet_line
     (tl (lines_run cur (replace (py_str '' - '') (NEWLINE # py_str ''- '') s)))"
proof (induction s arbitrary: cur rule: length_induct)
  case (1 s)
  let ?old = "py_str '' - ''" and ?new = "NEWLINE # py_str ''- ''"
  have old: "?old \<noteq> []" "length ?old = 3" by (simp_all add: py_str_def)
  show ?case
  proof (cases s)
    case Nil
    then show ?thesis by (simp add: replace_Nil old)
  next
    case (Cons c cs)
    from "1.prems" Cons have c: "c \<noteq> NEWLINE" and cs: "NEWLINE \<notin> set cs" by auto
    show ?thesis
    proof (cases "startswith s ?old")
      case True
      let ?r = "replace ?old ?new (drop 3 s)"
      have r: "replace ?old ?new s = ?new @ ?r"
        using True Cons old by (simp add: replace_hit)
      have d: "NEWLINE \<notin> set (drop 3 s)"
        using "1.prems" by (meson in_set_dropD)
      have l: "length (drop 3 s) < length s"
        using Cons by simp
      have ih: "list_all bullet_line (tl (lines_run (py_str ''- '') ?r))"
        using "1.IH" l d by blast
      obtain rest ls where h: "lines_run (py_str ''- '') ?r = (py_str ''- '' @ rest) # ls"
        using lines_run_hd by blast
      have "lines_run cur (replace ?old ?new s) = cur # lines_run (py_str ''- '') ?r"
        unfolding r by (simp add: py_str_def NEWLINE_def)
      moreover have "bullet_line (py_str ''- '' @ rest)"
        by (simp add: bullet_line_def startswith_def py_str_def)
      ultimately show ?thesis
        using ih h by simp
    next
      case False
      have r: "replace ?old ?new s = c # replace ?old ?new cs"
        using False Cons old by (simp add: replace_miss)
      have "list_all bullet_line (tl (lines_run (cur @ [c]) (replace ?old ?new cs)))"
        using "1.IH" Cons cs by simp
      then show ?thesis
        unfolding r using c by simp
    qed
  qed
qed

lemma post_process_lines:
  assumes "NEWLINE \<notin> set output_text"
  shows "list_all bullet_line (tl (lines_of (post_process output_text)))"
proof -
  let ?a = "replace (py_str ''**'') [] (strip output_text)"
  have a: "NEWLINE \<notin> set ?a"
    using assms replace_delete_set [of "py_str ''**''" "strip output_text"]
      strip_set [of output_text] by blast
  show ?thesis
  proof (cases "contains (py_str '' - '') ?a \<and> \<not> contains (NEWLINE # py_str ''- '') ?a")
    case True
    then have "post_process output_text = replace (py_str '' - '') (NEWLINE # py_str ''- '') ?a"
      by (simp add: post_process_def Let_def)
    then show ?thesis
      using reflow_lines [OF a] by (simp add: lines_of_def)
  next
    case False
    then have "post_process output_text = ?a"
      by (auto simp: post_process_def Let_def)
    then show ?thesis
      using a by (simp add: lines_of_def lines_run_plain)
  qed
qed

lemma scenario_items:
  "post_process (py_str ''Item1 - Item2 - Item3'') =
     py_str ''Item1'' @ [NEWLINE] @ py_str ''- Item2'' @ [NEWLINE] @ py_str ''- Item3''"
proof -
  have old: "py_str '' - '' \<noteq> []" "py_str ''**'' \<noteq> []"
    by (simp_all add: py_str_def)
  have s: "strip (py_str ''Item1 - Item2 - Item3'') = py_str ''Item1 - Item2 - Item3''"
    by (simp add: strip_def lstrip_def rstrip_def py_str_def isspace_def)
  have b: "replace (py_str ''**'') [] (py_str ''Item1 - Item2 - Item3'') =
      py_str ''Item1 - Item2 - Item3''"
    using old(2) by (simp add: py_str_def replace_Nil replace_hit replace_miss startswith_def)
  have c: "contains (py_str '' - '') (py_str ''Item1 - Item2 - Item3'')"
    "\<not> contains (NEWLINE # py_str ''- '') (py_str ''Item1 - Item2 - Item3'')"
    by (simp_all add: py_str_def startswith_def NEWLINE_def)
  have r: "replace (py_str '' - '') (NEWLINE # py_str ''- '') (py_str ''Item1 - Item2 - Item3'') =
     py_str ''Item1'' @ [NEWLINE] @ py_str ''- Item2'' @ [NEWLINE] @ py_str ''- Item3''"
    using old(1) by (simp add: py_str_def replace_Nil replace_hit replace_miss startswith_def)
  show ?thesis
    unfolding post_process_def Let_def s b using c r by simp
qed


lemma scenario_lines:
  "lines_of (py_str ''Item1'' @ [NEWLINE] @ py_str ''- Item2'' @ [NEWLINE] @ py_str ''- Item3'') =
     [py_str ''Item1'', py_str ''- Item2'', py_str ''- Item3'']"
  by (simp add: lines_of_def py_str_def NEWLINE_def)

text \<open>
  Claim C4 (amended). For the raw model output \<open>"Item1 - Item2 - Item3"\<close> the answer
  post-processing replaces both occurrences of \<open>" - "\<close> by a newline and \<open>"- "\<close> and
  produces the three lines \<open>"Item1"\<close>, \<open>"- Item2"\<close> and \<open>"- Item3"\<close>: the second and the
  third start with \<open>"- "\<close>. For every output without a newline, every line of the
  post-processed answer after the first starts with \<open>"- "\<close>.
\<close>

theorem post_process_items:
  "post_process (py_str ''Item1 - Item2 - Item3'') =
     py_str ''Item1'' @ [NEWLINE] @ py_str ''- Item2'' @ [NEWLINE] @ py_str ''- Item3'' \<and>
   lines_of (post_process (py_str ''Item1 - Item2 - Item3'')) =
     [py_str ''Item1'', py_str ''- Item2'', py_str ''- Item3''] \<and>
   (NEWLINE \<notin> set output_text \<longrightarrow>
      list_all bullet_line (tl (lines_of (post_process output_text))))"
  using post_process_lines [of output_text] by (simp only: scenario_items scenario_lines) simp

theorem post_process_items_witness:
  "NEWLINE \<notin> set (py_str ''- A - B - C'') \<and>
   lines_of (post_process (py_str ''- A - B - C'')) =
     [py_str ''- A'', py_str ''- B'', py_str ''- C''] \<and>
   list_all bullet_line (tl (lines_of (post_process (py_str ''- A - B - C''))))"
proof -
  have old: "py_str '' - '' \<noteq> []" "py_str ''**'' \<noteq> []"
    by (simp_all add: py_str_def)
  have s: "strip (py_str ''- A - B - C'') = py_str ''- A - B - C''"
    by (simp add: strip_def lstrip_def rstrip_def py_str_def isspace_def)
  have b: "replace (py_str ''**'') [] (py_str ''- A - B - C'') = py_str ''- A - B - C''"
    using old(2) by (simp add: py_str_def replace_Nil replace_hit replace_miss startswith_def)
  have c: "contains (py_str '' - '') (py_str ''- A - B - C'')"
    "\<not> contains (NEWLINE # py_str ''- '') (py_str ''- A - B - C'')"
    by (simp_all add: py_str_def startswith_def NEWLINE_def)
  have r: "replace (py_str '' - '') (NEWLINE # py_str ''- '') (py_str ''- A - B - C'') =
     py_str ''- A'' @ [NEWLINE] @ py_str ''- B'' @ [NEWLINE] @ py_str ''- C''"
    using old(1) by (simp add: py_str_def replace_Nil replace_hit replace_miss startswith_def)
  have p: "post_process (py_str ''- A - B - C'') =
     py_str ''- A'' @ [NEWLINE] @ py_str ''- B'' @ [NEWLINE] @ py_str ''- C''"
    unfolding post_process_def Let_def s b using c r by simp
  have l: "lines_of (post_process (py_str ''- A - B - C'')) =
     [py_str ''- A'', py_str ''- B'', py_str ''- C'']"
    unfolding p by (simp add: lines_of_def py_str_def NEWLINE_def)
  have n: "NEWLINE \<notin> set (py_str ''- A - B - C'')"
    by (simp add: py_str_def NEWLINE_def)
  show ?thesis
    using n l post_process_items [of "py_str ''- A - B - C''"] by simp
qed

text \<open>
  Claim C4 as stated fails: the first of the three lines is \<open>"Item1"\<close>, the text before
  the first \<open>" - "\<close>, and it does not start with \<open>"- "\<close>.
\<close>

theorem post_process_items_counterexample:
  "length (lines_of (post_process (py_str ''Item1 - Item2 - Item3''))) = 3 \<and>
   hd (lines_of (post_process (py_str ''Item1 - Item2 - Item3''))) = py_str ''Item1'' \<and>
   \<not> list_all bullet_line (lines_of (post_process (py_str ''Item1 - Item2 - Item3'')))"
  by (simp only: scenario_items scenario_lines)
     (simp add: bullet_line_def startswith_def py_str_def)

section \<open>The ask route: fallback and default top_k\<close>

lemma slice_to_Nil: "slice_to n [] = []"
  by (simp add: slice_to_def)

lemma retrieve_no_documents:
  "0 < k \<Longrightarrow> first_batch (documents (query (encode [q]) (max (k * 3) k) d)) = [] \<Longrightarrow>
   retrieve_top_k encode query d q k = Inr []"
  by (simp add: retrieve_top_k_answered score_results_def Let_def dedupe_def sort_reverse_def)

lemma ask_no_evidence:
  "retrieve_top_k encode query (rq_doc_id payload) (rq_question payload) (rq_top_k payload) = Inr [] \<Longrightarrow>
   ask llm encode query payload =
     (Inr \<lparr>a_doc_id = rq_doc_id payload, a_question = rq_question payload,
           a_answer = FALLBACK_ANSWER, a_sources = [], a_evidence = []\<rparr>, [])"
  by (simp add: ask_def)

text \<open>
  Claim C5. When the retrieval step of an ask request returns the empty list, the
  response has the answer \<open>"I don't know based on the provided document."\<close>, no sources
  and no evidence, and no prompt is sent to the language model. This is the case in
  particular when the index answers the query with no documents for the \<open>doc_id\<close> (an
  unknown document or an empty index).
\<close>

theorem ask_no_evidence_fallback:
  "(retrieve_top_k encode query (rq_doc_id payload) (rq_question payload) (rq_top_k payload) = Inr [] \<longrightarrow>
      ask llm encode query payload =
        (Inr \<lparr>a_doc_id = rq_doc_id payload, a_question = rq_question payload,
              a_answer = py_str ''I don't know based on the provided document.'',
              a_sources = [], a_evidence = []\<rparr>, [])) \<and>
   (0 < rq_top_k payload \<and>
    first_batch (documents (query (encode [rq_question payload])
        (max (rq_top_k payload * 3) (rq_top_k payload)) (rq_doc_id payload))) = [] \<longrightarrow>
      retrieve_top_k encode query (rq_doc_id payload) (rq_question payload) (rq_top_k payload) = Inr [] \<and>
      ask llm encode query payload =
        (Inr \<lparr>a_doc_id = rq_doc_id payload, a_question = rq_question payload,
              a_answer = py_str ''I don't know based on the provided document.'',
              a_sources = [], a_evidence = []\<rparr>, []))"
proof -
  have a: "ask llm encode query payload =
        (Inr \<lparr>a_doc_id = rq_doc_id payload, a_question = rq_question payload,
              a_answer = py_str ''I don't know based on the provided document.'',
              a_sources = [], a_evidence = []\<rparr>, [])"
    if "retrieve_top_k encode query (rq_doc_id payload) (rq_question payload) (rq_top_k payload) = Inr []"
    using ask_no_evidence [OF that, of llm] by (simp only: FALLBACK_ANSWER_def)
  have b: "retrieve_top_k encode query (rq_doc_id payload) (rq_question payload) (rq_top_k payload) = Inr []"
    if "0 < rq_top_k payload"
      and "first_batch (documents (query (encode [rq_question payload])
        (max (rq_top_k payload * 3) (rq_top_k payload)) (rq_doc_id payload))) = []"
    using that by (rule retrieve_no_documents)
  from a b show ?thesis by blast
qed

theorem ask_no_evidence_fallback_witness:
  "retrieve_top_k (\<lambda>ts. [0::nat]) empty_query (py_str ''unknown'') (py_str ''why?'') 5 = Inr [] \<and>
   ask (\<lambda>prompt. Inr (py_str ''made up'')) (\<lambda>ts. [0::nat]) empty_query
       \<lparr>rq_doc_id = py_str ''unknown'', rq_question = py_str ''why?'', rq_top_k = 5\<rparr> =
     (Inr \<lparr>a_doc_id = py_str ''unknown'', a_question = py_str ''why?'',
           a_answer = py_str ''I don't know based on the provided document.'',
           a_sources = [], a_evidence = []\<rparr>, [])"
proof -
  have e: "retrieve_top_k (\<lambda>ts. [0::nat]) empty_query (py_str ''unknown'') (py_str ''why?'') 5 = Inr []"
    by (rule retrieve_no_documents) (simp_all add: empty_query_def first_batch_def)
  show ?thesis
    using e ask_no_evidence_fallback [where encode = "\<lambda>ts. [0::nat]" and query = empty_query
        and payload = "\<lparr>rq_doc_id = py_str ''unknown'', rq_question = py_str ''why?'', rq_top_k = 5\<rparr>"
        and llm = "\<lambda>prompt. Inr (py_str ''made up'')"]
    by simp
qed

lemma ask_prompts:
  "snd (ask llm encode query payload) =
     (case retrieve_top_k encode query (rq_doc_id payload) (rq_question payload)
             (rq_top_k payload) of
        Inl e \<Rightarrow> []
      | Inr retrieved \<Rightarrow>
          if retrieved = [] then [] else [build_prompt (rq_question payload) retrieved])"
  by (simp add: ask_def Let_def split: sum.splits)

text \<open>
  Claim C10. When the request body omits \<open>top_k\<close>, the schema gives \<open>top_k = 5\<close>: the
  retrieval is the one for \<open>top_k = 5\<close> (it asks the index for 15 results, which the
  index accepts, and keeps the first 5 after deduplication and ranking), it returns at
  most 5 chunks, and the only prompt built, if any, is built from these chunks.
\<close>

theorem ask_default_top_k:
  assumes "b_top_k body = None"
    and "R = take 5 (sort_reverse similarity_key
           (dedupe (score_results (query (encode [b_question body]) 15 (b_doc_id body)))))"
  shows "rq_top_k (AskRequest body) = 5 \<and>
     retrieve_top_k encode query (rq_doc_id (AskRequest body)) (rq_question (AskRequest body))
       (rq_top_k (AskRequest body)) = Inr R \<and>
     retrieve_top_k encode query (b_doc_id body) (b_question body) 5 = Inr R \<and>
     length R \<le> 5 \<and>
     snd (ask llm encode query (AskRequest body)) =
       (if R = [] then [] else [build_prompt (b_question body) R])"
proof -
  have k: "rq_top_k (AskRequest body) = 5"
    using assms(1) by (simp add: AskRequest_def)
  have r: "retrieve_top_k encode query (b_doc_id body) (b_question body) 5 = Inr R"
    unfolding assms(2) by (simp add: retrieve_top_k_answered)
  have l: "length R \<le> 5"
    unfolding assms(2) by simp
  have a: "rq_doc_id (AskRequest body) = b_doc_id body"
    "rq_question (AskRequest body) = b_question body"
    by (simp_all add: AskRequest_def)
  show ?thesis
    using k r l by (simp add: ask_prompts a)
qed

theorem ask_default_top_k_witness:
  "b_top_k \<lparr>b_doc_id = py_str ''d'', b_question = py_str ''q'', b_top_k = None\<rparr> = None \<and>
   rq_top_k (AskRequest \<lparr>b_doc_id = py_str ''d'', b_question = py_str ''q'', b_top_k = None\<rparr>) = 5 \<and>
   retrieve_top_k (\<lambda>ts. [0::nat]) example_query (py_str ''d'') (py_str ''q'') 5 =
     Inr [\<lparr>r_text = py_str ''b'', r_page = Some 1, r_chunk_index = Some 1, r_similarity = Some (9 / 10)\<rparr>,
          \<lparr>r_text = py_str ''a'', r_page = Some 1, r_chunk_index = Some 0, r_similarity = Some (7 / 10)\<rparr>] \<and>
   length [\<lparr>r_text = py_str ''b'', r_page = Some 1, r_chunk_index = Some 1, r_similarity = Some (9 / 10)\<rparr>,
          \<lparr>r_text = py_str ''a'', r_page = Some 1, r_chunk_index = Some 0, r_similarity = Some (7 / 10)\<rparr>]
     \<le> (5::nat)"
proof -
  have ev: "take 5 (sort_reverse similarity_key (dedupe (score_results
        (example_query [0] 15 (py_str ''d''))))) =
     [\<lparr>r_text = py_str ''b'', r_page = Some 1, r_chunk_index = Some 1, r_similarity = Some (9 / 10)\<rparr>,
      \<lparr>r_text = py_str ''a'', r_page = Some 1, r_chunk_index = Some 0, r_similarity = Some (7 / 10)\<rparr>]"
    by (simp add: example_ranked)
  show ?thesis
    using ev ask_default_top_k [where body = "\<lparr>b_doc_id = py_str ''d'', b_question = py_str ''q'', b_top_k = None\<rparr>"
        and encode = "\<lambda>ts. [0::nat]" and query = example_query, OF _ refl]
    by simp
qed

section \<open>Indexing: failures and re-indexing\<close>

declare digits.simps [simp del]

lemma index_blank:
  "strip (join [NEWLINE] (map p_text (extract_pages_from_pdf reader_pages))) = [] \<Longrightarrow>
   index_doc_into_chroma encode d reader_pages c = (Inl NoExtractableText, c)"
  by (simp add: index_doc_into_chroma_def)

lemma index_no_chunks:
  "chunk_pages (extract_pages_from_pdf reader_pages) = [] \<Longrightarrow>
   index_doc_into_chroma encode d reader_pages c = (Inl NoExtractableText, c) \<or>
   index_doc_into_chroma encode d reader_pages c = (Inl NoValidChunks, c)"
  by (simp add: index_doc_into_chroma_def Let_def)

lemma index_error:
  "fst (index_doc_into_chroma encode d reader_pages c) = Inl msg \<Longrightarrow>
   snd (index_doc_into_chroma encode d reader_pages c) = c \<and>
   (msg = NoExtractableText \<or> msg = NoValidChunks)"
  by (auto simp: index_doc_into_chroma_def Let_def split: if_splits)

lemma index_success:
  "strip (join [NEWLINE] (map p_text (extract_pages_from_pdf reader_pages))) \<noteq> [] \<Longrightarrow>
   chunk_pages (extract_pages_from_pdf reader_pages) \<noteq> [] \<Longrightarrow>
   chunks = chunk_pages (extract_pages_from_pdf reader_pages) \<Longrightarrow>
   index_doc_into_chroma encode d reader_pages c =
     (Inr \<lparr>s_pages = length (extract_pages_from_pdf reader_pages), s_chunks = length chunks\<rparr>,
      collection_add
        (map (\<lambda>ch. d @ py_str '':'' @ str_of_int (int (c_chunk_index ch))) chunks)
        (map c_text chunks)
        (map (\<lambda>ch. \<lparr>md_doc_id = Some d, md_page = Some (c_page ch),
                     md_chunk_index = Some (int (c_chunk_index ch))\<rparr>) chunks)
        (encode (map c_text chunks))
        (collection_delete d c))"
  by (simp add: index_doc_into_chroma_def Let_def)

lemma batch_metadata:
  "e \<in> set (map (\<lambda>(i, d, m, v). \<lparr>e_id = i, e_document = d, e_metadata = m, e_embedding = v\<rparr>)
             (zip ids (zip docs (zip metas embs)))) \<Longrightarrow>
   e_metadata e \<in> set metas"
proof -
  assume "e \<in> set (map (\<lambda>(i, d, m, v). \<lparr>e_id = i, e_document = d, e_metadata = m, e_embedding = v\<rparr>)
             (zip ids (zip docs (zip metas embs))))"
  then obtain i d m v where z: "(i, d, m, v) \<in> set (zip ids (zip docs (zip metas embs)))"
    and e: "e = \<lparr>e_id = i, e_document = d, e_metadata = m, e_embedding = v\<rparr>"
    by auto
  from z have "(d, m, v) \<in> set (zip docs (zip metas embs))" by (rule set_zip_rightD)
  then have "(m, v) \<in> set (zip metas embs)" by (rule set_zip_rightD)
  then have "m \<in> set metas" by (rule set_zip_leftD)
  with e show ?thesis by simp
qed

lemma purge_then_add_twice:
  assumes "\<forall>m \<in> set metas. md_doc_id m = Some d"
  shows "entries (collection_add ids docs metas embs
           (collection_delete d
             (collection_add ids docs metas embs (collection_delete d c)))) =
         entries (collection_add ids docs metas embs (collection_delete d c))"
proof -
  let ?batch = "map (\<lambda>(i, d, m, v). \<lparr>e_id = i, e_document = d, e_metadata = m, e_embedding = v\<rparr>)
             (zip ids (zip docs (zip metas embs)))"
  have "filter (\<lambda>e. md_doc_id (e_metadata e) \<noteq> Some d) ?batch = []"
    using assms batch_metadata [of _ ids docs metas embs]
    by (simp only: filter_empty_conv) blast
  then show ?thesis
    by (simp add: collection_add_def collection_delete_def)
qed

lemma index_twice_entries:
  "entries (snd (index_doc_into_chroma encode d reader_pages
      (snd (index_doc_into_chroma encode d reader_pages c)))) =
   entries (snd (index_doc_into_chroma encode d reader_pages c))"
proof (cases "strip (join [NEWLINE] (map p_text (extract_pages_from_pdf reader_pages))) = [] \<or>
    chunk_pages (extract_pages_from_pdf reader_pages) = []")
  case True
  then have "snd (index_doc_into_chroma encode d reader_pages c') = c'" for c' :: "'a collection"
    using index_blank [of reader_pages encode d c'] index_no_chunks [of reader_pages encode d c']
    by auto
  then show ?thesis by simp
next
  case False
  then show ?thesis
    by (simp add: index_success [OF _ _ refl] purge_then_add_twice)
qed

lemma index_twice_result:
  "fst (index_doc_into_chroma encode d reader_pages
      (snd (index_doc_into_chroma encode d reader_pages c))) =
   fst (index_doc_into_chroma encode d reader_pages c)"
  by (simp add: index_doc_into_chroma_def Let_def)

text \<open>
  Claim C6. When indexing fails, with \<open>NoExtractableText\<close> (the page texts joined are
  empty or whitespace only) or with \<open>NoValidChunks\<close> (chunking gives no chunk),
  \<open>index_doc_into_chroma\<close> returns the error and the collection is exactly as before:
  its entries are the same and no call, neither a delete nor an add, was made on it.
\<close>

theorem index_failure_leaves_collection:
  "(strip (join [NEWLINE] (map p_text (extract_pages_from_pdf reader_pages))) = [] \<longrightarrow>
      index_doc_into_chroma encode d reader_pages c = (Inl NoExtractableText, c)) \<and>
   (chunk_pages (extract_pages_from_pdf reader_pages) = [] \<longrightarrow>
      index_doc_into_chroma encode d reader_pages c = (Inl NoExtractableText, c) \<or>
      index_doc_into_chroma encode d reader_pages c = (Inl NoValidChunks, c)) \<and>
   (\<forall>msg. fst (index_doc_into_chroma encode d reader_pages c) = Inl msg \<longrightarrow>
      (msg = NoExtractableText \<or> msg = NoValidChunks) \<and>
      snd (index_doc_into_chroma encode d reader_pages c) = c \<and>
      entries (snd (index_doc_into_chroma encode d reader_pages c)) = entries c \<and>
      calls (snd (index_doc_into_chroma encode d reader_pages c)) = calls c)"
  using index_blank [of reader_pages encode d c] index_no_chunks [of reader_pages encode d c]
    index_error [of encode d reader_pages c]
  by auto

theorem index_failure_leaves_collection_witness:
  "strip (join [NEWLINE] (map p_text (extract_pages_from_pdf [Some (py_str ''  ''), None]))) = [] \<and>
   chunk_pages (extract_pages_from_pdf [Some (py_str ''  ''), None]) = [] \<and>
   index_doc_into_chroma (map length) (py_str ''doc'') [Some (py_str ''  ''), None]
       \<lparr>entries = [], calls = []\<rparr> =
     (Inl NoExtractableText, \<lparr>entries = [], calls = []\<rparr>)"
proof -
  have p: "extract_pages_from_pdf [Some (py_str ''  ''), None] =
      [\<lparr>p_page = 1, p_text = py_str ''  ''\<rparr>, \<lparr>p_page = 2, p_text = []\<rparr>]"
    by (simp add: extract_pages_from_pdf_def)
  have b: "strip (join [NEWLINE] (map p_text (extract_pages_from_pdf [Some (py_str ''  ''), None]))) = []"
    unfolding p by (simp add: strip_def lstrip_def rstrip_def py_str_def isspace_def NEWLINE_def)
  have e: "strip (slice 0 (0 + CHUNK_SIZE) (py_str ''  '')) = []"
    by (simp add: strip_def lstrip_def rstrip_def slice_def py_str_def isspace_def CHUNK_SIZE_def)
  have l: "length (py_str ''  '') = 2"
    by (simp add: py_str_def)
  have ch: "chunk_pages (extract_pages_from_pdf [Some (py_str ''  ''), None]) = []"
    using e l by (simp add: p chunk_pages_def loop_step_empty loop_stop)
  show ?thesis
    using b ch
      index_failure_leaves_collection [of "[Some (py_str ''  ''), None]" "map length"
        "py_str ''doc''" "\<lparr>entries = [], calls = []\<rparr>"]
    by simp
qed

text \<open>
  Claim C8. Indexing the same \<open>doc_id\<close> twice with the same pages leaves the collection
  with the same entries as indexing it once: the same chunk ids and the same number of
  entries, not doubled, since the entries of that \<open>doc_id\<close> are purged before the batch
  is added. The result returned is the same too.
\<close>

theorem reindex_idempotent:
  "entries (snd (index_doc_into_chroma encode d reader_pages
      (snd (index_doc_into_chroma encode d reader_pages c)))) =
     entries (snd (index_doc_into_chroma encode d reader_pages c)) \<and>
   set (map e_id (entries (snd (index_doc_into_chroma encode d reader_pages
      (snd (index_doc_into_chroma encode d reader_pages c)))))) =
     set (map e_id (entries (snd (index_doc_into_chroma encode d reader_pages c)))) \<and>
   length (entries (snd (index_doc_into_chroma encode d reader_pages
      (snd (index_doc_into_chroma encode d reader_pages c))))) =
     length (entries (snd (index_doc_into_chroma encode d reader_pages c))) \<and>
   fst (index_doc_into_chroma encode d reader_pages
      (snd (index_doc_into_chroma encode d reader_pages c))) =
     fst (index_doc_into_chroma encode d reader_pages c)"
  by (simp only: index_twice_entries index_twice_result)


theorem reindex_idempotent_witness:
  "entries (snd (index_doc_into_chroma (map length) (py_str ''doc'') [Some (py_str ''ab'')]
      (snd (index_doc_into_chroma (map length) (py_str ''doc'') [Some (py_str ''ab'')]
         \<lparr>entries = [], calls = []\<rparr>)))) =
     [\<lparr>e_id = py_str ''doc:0'', e_document = py_str ''ab'',
       e_metadata = \<lparr>md_doc_id = Some (py_str ''doc''), md_page = Some 1, md_chunk_index = Some 0\<rparr>,
       e_embedding = 2\<rparr>] \<and>
   length (calls (snd (index_doc_into_chroma (map length) (py_str ''doc'') [Some (py_str ''ab'')]
      (snd (index_doc_into_chroma (map length) (py_str ''doc'') [Some (py_str ''ab'')]
         \<lparr>entries = [], calls = []\<rparr>))))) = 4"
proof -
  have p: "extract_pages_from_pdf [Some (py_str ''ab'')] = [\<lparr>p_page = 1, p_text = py_str ''ab''\<rparr>]"
    by (simp add: extract_pages_from_pdf_def)
  have f: "strip (slice 0 (0 + CHUNK_SIZE) (py_str ''ab'')) = py_str ''ab''"
    by (simp add: strip_def lstrip_def rstrip_def slice_def py_str_def isspace_def CHUNK_SIZE_def)
  have l: "length (py_str ''ab'') = 2" "py_str ''ab'' \<noteq> []"
    by (simp_all add: py_str_def)
  have ch: "chunk_pages (extract_pages_from_pdf [Some (py_str ''ab'')]) =
      [\<lparr>c_chunk_index = 0, c_page = 1, c_text = py_str ''ab''\<rparr>]"
    using f l by (simp add: p chunk_pages_def loop_step_emit loop_stop)
  have b: "strip (join [NEWLINE] (map p_text (extract_pages_from_pdf [Some (py_str ''ab'')]))) \<noteq> []"
    unfolding p by (simp add: strip_def lstrip_def rstrip_def py_str_def isspace_def)
  have i: "py_str ''doc'' @ py_str '':'' @ str_of_int (int 0) = py_str ''doc:0''"
    by (simp add: py_str_def str_of_int_def digits.simps [of 0])
  have once: "index_doc_into_chroma (map length) (py_str ''doc'') [Some (py_str ''ab'')] c =
      (Inr \<lparr>s_pages = 1, s_chunks = 1\<rparr>,
       collection_add [py_str ''doc:0''] [py_str ''ab'']
         [\<lparr>md_doc_id = Some (py_str ''doc''), md_page = Some 1, md_chunk_index = Some 0\<rparr>] [2]
         (collection_delete (py_str ''doc'') c))" for c :: "nat collection"
    using b i l by (simp add: index_success [OF _ _ refl] ch) (simp add: p)
  show ?thesis
    using reindex_idempotent [of "map length" "py_str ''doc''" "[Some (py_str ''ab'')]"
        "\<lparr>entries = [], calls = []\<rparr>"]
    by (simp add: once collection_add_def collection_delete_def)
qed

section \<open>Indexing: a document with text has chunks\<close>

lemma strip_empty_iff: "strip s = [] \<longleftrightarrow> list_all isspace s"
proof
  assume "list_all isspace s"
  then have d: "dropWhile isspace s = []"
    by (simp add: dropWhile_eq_Nil_conv list_all_iff)
  show "strip s = []"
    by (simp only: strip_def lstrip_def rstrip_def d rev.simps dropWhile.simps)
next
  assume a: "strip s = []"
  then have "\<forall>x \<in> set (dropWhile isspace s). isspace x"
    by (simp add: strip_def lstrip_def rstrip_def dropWhile_eq_Nil_conv)
  then have "dropWhile isspace s = []"
    using hd_dropWhile [of isspace s] hd_in_set [of "dropWhile isspace s"] by blast
  then show "list_all isspace s"
    by (simp add: dropWhile_eq_Nil_conv list_all_iff)
qed

lemma page_windows_nonempty:
  assumes "i < length t" and "\<not> isspace (t ! i)"
  shows "page_windows t \<noteq> []"
proof -
  define k where "k = i div 800"
  define s where "s = k * 800"
  have st: "CHUNK_SIZE - CHUNK_OVERLAP = 800" and sz: "CHUNK_SIZE = 1000"
    by (simp_all add: CHUNK_SIZE_def CHUNK_OVERLAP_def)
  have le: "s \<le> i" and lt: "i < s + 800"
    unfolding s_def k_def by arith+
  have "k * (CHUNK_SIZE - CHUNK_OVERLAP) < length t"
    unfolding st using le assms(1) s_def by linarith
  then have k: "k < window_count (length t)" by (simp only: window_count_iff)
  have "t ! i \<in> set (slice s (s + CHUNK_SIZE) t)"
  proof -
    have "slice s (s + CHUNK_SIZE) t ! (i - s) = t ! i"
      using le lt assms(1) by (simp add: slice_def sz)
    moreover have "i - s < length (slice s (s + CHUNK_SIZE) t)"
      using le lt assms(1) by (simp add: slice_def sz) arith
    ultimately show ?thesis by (metis nth_mem)
  qed
  with assms(2) have "\<not> list_all isspace (slice s (s + CHUNK_SIZE) t)"
    by (auto simp: list_all_iff)
  then have ne: "strip (slice s (s + CHUNK_SIZE) t) \<noteq> []"
    by (simp add: strip_empty_iff)
  have "s \<in> set (window_starts (length t))"
    unfolding window_starts_def st s_def using k by simp
  then have "strip (slice s (s + CHUNK_SIZE) t) \<in> set (page_windows t)"
    using ne by (auto simp: page_windows_def)
  then show ?thesis by auto
qed

lemma chunk_pages_nonempty:
  assumes "strip (join [NEWLINE] (map p_text pages)) \<noteq> []"
  shows "chunk_pages pages \<noteq> []"
proof -
  from assms obtain c where c: "c \<in> set (join [NEWLINE] (map p_text pages))" and ns: "\<not> isspace c"
    by (auto simp: strip_empty_iff list_all_iff)
  have "isspace NEWLINE" by (simp add: isspace_def NEWLINE_def)
  with c ns obtain pg where pg: "pg \<in> set pages" and m: "c \<in> set (p_text pg)"
    using join_set [of "[NEWLINE]" "map p_text pages"] by auto
  from m obtain i where "i < length (p_text pg)" "p_text pg ! i = c"
    by (auto simp: in_set_conv_nth)
  with ns have "page_windows (p_text pg) \<noteq> []"
    using page_windows_nonempty by blast
  with pg have "concat (map (\<lambda>pg. map (Pair (p_page pg)) (page_windows (p_text pg))) pages) \<noteq> []"
    by auto
  then have "map (\<lambda>c. (c_page c, c_text c)) (chunk_pages pages) \<noteq> []"
    unfolding chunk_pages_def by (simp add: pages_windows)
  then show ?thesis by auto
qed

text \<open>
  A document whose joined page texts hold a character that is not whitespace always
  has a chunk: the window that starts at the multiple of 800 below that character
  holds it. So the second error return of \<open>index_doc_into_chroma\<close> is never taken, and
  the only indexing failure that occurs is \<open>NoExtractableText\<close>.
\<close>

lemma index_never_NoValidChunks:
  "fst (index_doc_into_chroma encode d reader_pages c) \<noteq> Inl NoValidChunks"
proof -
  have "NoExtractableText \<noteq> NoValidChunks"
    by (simp add: NoExtractableText_def NoValidChunks_def py_str_def)
  then show ?thesis
    using chunk_pages_nonempty [of "extract_pages_from_pdf reader_pages"]
    by (auto simp: index_doc_into_chroma_def Let_def)
qed

end
